theory Spec2Isabelle
  imports Complex_Main
begin

section \<open>Python values, exceptions and subscripting\<close>

text \<open>
  The development embeds \<^verbatim>\<open>src/streamlit_app.py\<close>. Python floats are read as the real
  numbers they denote (every finite float is one, and comparing two floats compares these
  reals); the rounding of \<^verbatim>\<open>np.mean\<close> and not-a-number inputs are outside the model.
  Text formatting of numbers (\<^verbatim>\<open>:.1%\<close>, \<^verbatim>\<open>:.4f\<close>), page layout and static
  headings are not modelled: an output event carries the values it is rendered from.
\<close>

datatype index = Str string | Idx nat

datatype py_error =
    KeyError index
  | IndexError
  | TypeError
  | ValueError
  | JSONDecodeError
  | RecursionError
  | OtherError string

text \<open>
  What \<^verbatim>\<open>process_transaction\<close> reports for one model: a positional sequence (list or
  array) or a dictionary of named fields.
\<close>

datatype raw_output = Positional "real list" | Named "(index \<times> real) list"

text \<open>
  \<^verbatim>\<open>pred[i]\<close>: a sequence read past its end raises IndexError, a sequence subscripted
  by a string raises TypeError (IndexError for an array; both are caught alike), a dictionary
  without the key raises KeyError.
\<close>

fun subscript :: "raw_output \<Rightarrow> index \<Rightarrow> py_error + real" where
  "subscript (Positional xs) (Idx i) = (if i < length xs then Inr (xs ! i) else Inl IndexError)"
| "subscript (Positional xs) (Str s) = Inl TypeError"
| "subscript (Named d) k = (case map_of d k of None \<Rightarrow> Inl (KeyError k) | Some v \<Rightarrow> Inr v)"

text \<open>
  The predictions dictionary, in insertion order. A Python dictionary holds each key once:
  \<open>distinct (map fst predictions)\<close> is its representation invariant.
\<close>

type_synonym predictions = "(string \<times> raw_output) list"

definition getitem :: "predictions \<Rightarrow> string \<Rightarrow> py_error + raw_output" where
  "getitem predictions key =
     (case map_of predictions key of None \<Rightarrow> Inl (KeyError (Str key)) | Some pred \<Rightarrow> Inr pred)"

text \<open>\<^verbatim>\<open>predictions[key][i]\<close>\<close>

definition getitem2 :: "predictions \<Rightarrow> string \<Rightarrow> index \<Rightarrow> py_error + real" where
  "getitem2 predictions key i =
     (case getitem predictions key of Inl e \<Rightarrow> Inl e | Inr pred \<Rightarrow> subscript pred i)"

text \<open>Transaction data: what the form builds and what \<^verbatim>\<open>json.loads\<close> returns.\<close>

datatype pyval =
    PyNone
  | PyBool bool
  | PyInt int
  | PyFloat real
  | PyStr string
  | PyList "pyval list"
  | PyDict "(string \<times> pyval) list"

section \<open>numpy reductions\<close>

text \<open>
  \<^verbatim>\<open>np.mean\<close> of an empty sequence is nan (with a warning), here \<open>None\<close>;
  \<^verbatim>\<open>np.max\<close> of an empty sequence raises ValueError. A comparison with nan is false.
\<close>

definition np_mean :: "real list \<Rightarrow> real option" where
  "np_mean xs = (if xs = [] then None else Some (sum_list xs / real (length xs)))"

definition np_max :: "real list \<Rightarrow> py_error + real" where
  "np_max xs = (if xs = [] then Inl ValueError else Inr (Max (set xs)))"

fun py_gt :: "real option \<Rightarrow> real \<Rightarrow> bool" where
  "py_gt None y = False"
| "py_gt (Some x) y = (y < x)"

section \<open>The analysis handler: aggregate metrics (main, lines 268-277)\<close>

definition fraud_prob_of :: "string \<Rightarrow> raw_output \<Rightarrow> py_error + real" where
  "fraud_prob_of model_name pred =
     (if model_name = ''svc'' then subscript pred (Str ''fraud'') else subscript pred (Idx 1))"

text \<open>The loop over \<^verbatim>\<open>predictions.items()\<close>, appending to \<^verbatim>\<open>fraud_probs\<close>.\<close>

fun collect_fraud_probs :: "predictions \<Rightarrow> real list \<Rightarrow> py_error + real list" where
  "collect_fraud_probs [] fraud_probs = Inr fraud_probs"
| "collect_fraud_probs ((model_name, pred) # rest) fraud_probs =
     (case fraud_prob_of model_name pred of
        Inl e \<Rightarrow> Inl e
      | Inr fraud_prob \<Rightarrow> collect_fraud_probs rest (fraud_probs @ [fraud_prob]))"

definition aggregate_metrics :: "predictions \<Rightarrow> py_error + (real option \<times> real)" where
  "aggregate_metrics predictions =
     (case collect_fraud_probs predictions [] of
        Inl e \<Rightarrow> Inl e
      | Inr fraud_probs \<Rightarrow>
          (let avg_fraud_prob = np_mean fraud_probs in
           case np_max fraud_probs of
             Inl e \<Rightarrow> Inl e
           | Inr max_fraud_prob \<Rightarrow> Inr (avg_fraud_prob, max_fraud_prob)))"

section \<open>Output events\<close>

datatype colour = Red | Green

record bar_chart =
  bar_x :: "string list"
  bar_y :: "real list"
  marker_color :: "colour list"

record gauge =
  gauge_value :: "real option"
  gauge_bar :: colour

datatype label = FRAUDE | NORMAL

record row =
  modelo :: string
  probabilidad_normal :: real
  probabilidad_fraude :: real
  prediccion :: label

text \<open>
  One event per call that shows something to the user, in the order of the calls, and one
  per call of \<^verbatim>\<open>process_transaction\<close> (\<open>Scoring_call\<close>, with the transaction passed).
  \<open>Uncaught\<close> ends a run that an exception leaves.
\<close>

datatype event =
    Load_error py_error
  | Models_unavailable
  | Models_loaded nat
  | Show_json pyval
  | Json_valid
  | Json_invalid
  | Scoring_call pyval
  | Fraud_alert "real option" real
  | Safe_alert "real option" real
  | Metric string real real
  | Process_error py_error
  | Plotly_bar bar_chart
  | Plotly_gauge gauge
  | Dataframe "row list"
  | Visual_error py_error
  | Uncaught py_error

fun is_fraud_alert :: "event \<Rightarrow> bool" where
  "is_fraud_alert (Fraud_alert avg mx) = True"
| "is_fraud_alert ev = False"

fun is_safe_alert :: "event \<Rightarrow> bool" where
  "is_safe_alert (Safe_alert avg mx) = True"
| "is_safe_alert ev = False"

fun is_metric :: "event \<Rightarrow> bool" where
  "is_metric (Metric name fraud_prob normal_prob) = True"
| "is_metric ev = False"

fun is_scoring_call :: "event \<Rightarrow> bool" where
  "is_scoring_call (Scoring_call tx) = True"
| "is_scoring_call ev = False"

section \<open>The analysis handler: per-model metrics (main, lines 300-317)\<close>

text \<open>Display names, with the accents of the source dropped.\<close>

definition model_names :: "string list" where
  "model_names = [''Regresion Logistica'', ''K-Vecinos'', ''SVM'', ''Arbol de Decision'']"

definition model_keys :: "string list" where
  "model_keys = [''logistic'', ''kneighbors'', ''svc'', ''tree'']"

text \<open>The pair \<open>(normal_prob, fraud_prob)\<close>, read in the order of the source.\<close>

definition panel_pair :: "predictions \<Rightarrow> string \<Rightarrow> py_error + (real \<times> real)" where
  "panel_pair predictions key =
     (if key = ''svc'' then
        (case getitem2 predictions key (Str ''fraud'') of
           Inl e \<Rightarrow> Inl e
         | Inr fraud_prob \<Rightarrow>
             (case getitem2 predictions key (Str ''non_fraud'') of
                Inl e \<Rightarrow> Inl e
              | Inr normal_prob \<Rightarrow> Inr (normal_prob, fraud_prob)))
      else
        (case getitem2 predictions key (Idx 0) of
           Inl e \<Rightarrow> Inl e
         | Inr normal_prob \<Rightarrow>
             (case getitem2 predictions key (Idx 1) of
                Inl e \<Rightarrow> Inl e
              | Inr fraud_prob \<Rightarrow> Inr (normal_prob, fraud_prob))))"

text \<open>
  The loop over \<^verbatim>\<open>zip(model_names, model_keys)\<close>: the metrics shown before an
  exception stay on the page.
\<close>

fun metrics_panel :: "predictions \<Rightarrow> (string \<times> string) list \<Rightarrow> event list \<times> py_error option" where
  "metrics_panel predictions [] = ([], None)"
| "metrics_panel predictions ((display_name, key) # rest) =
     (case panel_pair predictions key of
        Inl e \<Rightarrow> ([], Some e)
      | Inr (normal_prob, fraud_prob) \<Rightarrow>
          (case metrics_panel predictions rest of
             (shown, err) \<Rightarrow> (Metric display_name fraud_prob normal_prob # shown, err)))"

text \<open>The body of the \<^verbatim>\<open>try\<close> once the predictions are there (lines 268-317).\<close>

definition show_results :: "predictions \<Rightarrow> event list \<times> py_error option" where
  "show_results predictions =
     (case aggregate_metrics predictions of
        Inl e \<Rightarrow> ([], Some e)
      | Inr (avg_fraud_prob, max_fraud_prob) \<Rightarrow>
          (case metrics_panel predictions (zip model_names model_keys) of
             (shown, err) \<Rightarrow>
               ((if py_gt avg_fraud_prob (1 / 2)
                 then Fraud_alert avg_fraud_prob max_fraud_prob
                 else Safe_alert avg_fraud_prob max_fraud_prob) # shown, err)))"

text \<open>
  The handler of the analysis button (lines 261-320). \<^verbatim>\<open>process_transaction\<close> belongs
  to the module \<^verbatim>\<open>prediction\<close> and is a parameter; \<^verbatim>\<open>except Exception\<close> turns
  whatever it or the body raises into one error message.
\<close>

definition analyze_button ::
  "(pyval \<Rightarrow> 'm \<Rightarrow> py_error + predictions) \<Rightarrow> pyval \<Rightarrow> 'm \<Rightarrow> event list" where
  "analyze_button process_transaction transaction_data models =
     Scoring_call transaction_data #
     (case process_transaction transaction_data models of
        Inl e \<Rightarrow> [Process_error e]
      | Inr predictions \<Rightarrow>
          (case show_results predictions of
             (shown, None) \<Rightarrow> shown
           | (shown, Some e) \<Rightarrow> shown @ [Process_error e]))"

section \<open>The displayed model name (main, line 351)\<close>

text \<open>
  \<^verbatim>\<open>model_name.replace('_', ' ').title()\<close> on ASCII text: a letter that follows a letter
  becomes lower case, any other letter upper case; every other character stays and starts a
  new word.
\<close>

definition ascii_lower :: string where
  "ascii_lower = ''abcdefghijklmnopqrstuvwxyz''"

definition ascii_upper :: string where
  "ascii_upper = ''ABCDEFGHIJKLMNOPQRSTUVWXYZ''"

definition is_cased :: "char \<Rightarrow> bool" where
  "is_cased c \<longleftrightarrow> c \<in> set ascii_lower \<or> c \<in> set ascii_upper"

definition upper_char :: "char \<Rightarrow> char" where
  "upper_char c = (case map_of (zip ascii_lower ascii_upper) c of None \<Rightarrow> c | Some u \<Rightarrow> u)"

definition lower_char :: "char \<Rightarrow> char" where
  "lower_char c = (case map_of (zip ascii_upper ascii_lower) c of None \<Rightarrow> c | Some l \<Rightarrow> l)"

fun title_from :: "bool \<Rightarrow> string \<Rightarrow> string" where
  "title_from previous_cased [] = []"
| "title_from previous_cased (c # cs) =
     (if is_cased c
      then (if previous_cased then lower_char c else upper_char c) # title_from True cs
      else c # title_from False cs)"

definition py_title :: "string \<Rightarrow> string" where
  "py_title s = title_from False s"

definition py_replace :: "char \<Rightarrow> char \<Rightarrow> string \<Rightarrow> string" where
  "py_replace old new s = map (\<lambda>c. if c = old then new else c) s"

definition display_model :: "string \<Rightarrow> string" where
  "display_model model_name = py_title (py_replace (CHR ''_'') (CHR '' '') model_name)"

section \<open>Visualisations (plot_predictions, and main, lines 323-361)\<close>

text \<open>\<^verbatim>\<open>predictions[model]['fraud']\<close> or \<^verbatim>\<open>predictions[model][1]\<close> (lines 102-105).\<close>

definition model_fraud_prob :: "predictions \<Rightarrow> string \<Rightarrow> py_error + real" where
  "model_fraud_prob predictions model =
     (if model = ''svc'' then getitem2 predictions model (Str ''fraud'')
      else getitem2 predictions model (Idx 1))"

fun chart_fraud_probs :: "predictions \<Rightarrow> string list \<Rightarrow> real list \<Rightarrow> py_error + real list" where
  "chart_fraud_probs predictions [] fraud_probs = Inr fraud_probs"
| "chart_fraud_probs predictions (model # models) fraud_probs =
     (case model_fraud_prob predictions model of
        Inl e \<Rightarrow> Inl e
      | Inr fraud_prob \<Rightarrow> chart_fraud_probs predictions models (fraud_probs @ [fraud_prob]))"

definition plot_predictions :: "predictions \<Rightarrow> py_error + (bar_chart \<times> gauge)" where
  "plot_predictions predictions =
     (let models = map fst predictions in
      case chart_fraud_probs predictions models [] of
        Inl e \<Rightarrow> Inl e
      | Inr fraud_probs \<Rightarrow>
          (let fig1 = \<lparr>bar_x = models, bar_y = fraud_probs,
                       marker_color = map (\<lambda>prob. if 1 / 2 < prob then Red else Green) fraud_probs\<rparr>;
               avg_fraud_prob = np_mean fraud_probs;
               fig2 = \<lparr>gauge_value = avg_fraud_prob,
                       gauge_bar = (if py_gt avg_fraud_prob (1 / 2) then Red else Green)\<rparr>
           in Inr (fig1, fig2)))"

text \<open>The pair read for one row of the detail table (lines 343-348).\<close>

definition table_pair :: "string \<Rightarrow> raw_output \<Rightarrow> py_error + (real \<times> real)" where
  "table_pair model_name pred =
     (if model_name = ''svc'' then
        (case subscript pred (Str ''non_fraud'') of
           Inl e \<Rightarrow> Inl e
         | Inr normal_prob \<Rightarrow>
             (case subscript pred (Str ''fraud'') of
                Inl e \<Rightarrow> Inl e
              | Inr fraud_prob \<Rightarrow> Inr (normal_prob, fraud_prob)))
      else
        (case subscript pred (Idx 0) of
           Inl e \<Rightarrow> Inl e
         | Inr normal_prob \<Rightarrow>
             (case subscript pred (Idx 1) of
                Inl e \<Rightarrow> Inl e
              | Inr fraud_prob \<Rightarrow> Inr (normal_prob, fraud_prob))))"

text \<open>The loop building \<^verbatim>\<open>results_df\<close> (lines 341-355).\<close>

fun detail_table :: "predictions \<Rightarrow> row list \<Rightarrow> py_error + row list" where
  "detail_table [] results_df = Inr results_df"
| "detail_table ((model_name, pred) # rest) results_df =
     (case table_pair model_name pred of
        Inl e \<Rightarrow> Inl e
      | Inr (normal_prob, fraud_prob) \<Rightarrow>
          detail_table rest
            (results_df @
             [\<lparr>modelo = display_model model_name, probabilidad_normal = normal_prob,
               probabilidad_fraude = fraud_prob,
               prediccion = (if 1 / 2 < fraud_prob then FRAUDE else NORMAL)\<rparr>]))"

definition visualize_button ::
  "(pyval \<Rightarrow> 'm \<Rightarrow> py_error + predictions) \<Rightarrow> pyval \<Rightarrow> 'm \<Rightarrow> event list" where
  "visualize_button process_transaction transaction_data models =
     Scoring_call transaction_data #
     (case process_transaction transaction_data models of
        Inl e \<Rightarrow> [Visual_error e]
      | Inr predictions \<Rightarrow>
          (case plot_predictions predictions of
             Inl e \<Rightarrow> [Visual_error e]
           | Inr (fig1, fig2) \<Rightarrow>
               Plotly_bar fig1 # Plotly_gauge fig2 #
               (case detail_table predictions [] of
                  Inl e \<Rightarrow> [Visual_error e]
                | Inr results_df \<Rightarrow> [Dataframe results_df])))"

section \<open>Canned example transactions\<close>

text \<open>\<^verbatim>\<open>f'v{i}'\<close>: the letter v and the decimal digits of \<open>i\<close>.\<close>

definition digit_char :: "nat \<Rightarrow> char" where
  "digit_char d = ''0123456789'' ! d"

fun str_nat :: "nat \<Rightarrow> string" where
  "str_nat n = (if n < 10 then [digit_char n] else str_nat (n div 10) @ [digit_char (n mod 10)])"

declare str_nat.simps [simp del]

definition v_key :: "nat \<Rightarrow> string" where
  "v_key i = CHR ''v'' # str_nat i"

text \<open>
  Storing under a key (\<^verbatim>\<open>d[k] = v\<close>, and each entry of a dictionary display or of
  \<^verbatim>\<open>**\<close>): a key already there keeps its place and takes the new value, a new key goes last.
\<close>

fun dict_set :: "string \<Rightarrow> 'v \<Rightarrow> (string \<times> 'v) list \<Rightarrow> (string \<times> 'v) list" where
  "dict_set k v [] = [(k, v)]"
| "dict_set k v ((k', v') # d) = (if k' = k then (k, v) # d else (k', v') # dict_set k v d)"

definition dict_update :: "(string \<times> 'v) list \<Rightarrow> (string \<times> 'v) list \<Rightarrow> (string \<times> 'v) list" where
  "dict_update d kvs = fold (\<lambda>(k, v). dict_set k v) kvs d"

text \<open>
  \<^verbatim>\<open>np.random.normal(loc, scale)\<close> is a parameter \<open>normal\<close>: \<open>normal i loc scale\<close> is
  the number drawn while the entry for \<open>i\<close> is built.
\<close>

definition create_sample_transaction :: "(nat \<Rightarrow> real \<Rightarrow> real \<Rightarrow> real) \<Rightarrow> pyval" where
  "create_sample_transaction normal =
     PyDict (dict_update
       (dict_set ''time'' (PyInt 3600) (dict_set ''amount'' (PyFloat (10050 / 100)) []))
       (map (\<lambda>i. (v_key i, PyFloat (normal i 0 1))) [1..<29]))"

definition create_fraud_sample :: "(nat \<Rightarrow> real \<Rightarrow> real \<Rightarrow> real) \<Rightarrow> pyval" where
  "create_fraud_sample normal =
     PyDict (dict_update
       (dict_set ''time'' (PyInt 25200) (dict_set ''amount'' (PyFloat 5000) []))
       (map (\<lambda>i. (v_key i,
                   PyFloat (if i \<in> set [1, 3, 7, 10, 14] then normal i 0 2 else normal i 0 (1 / 2))))
            [1..<29]))"

text \<open>The keys a transaction must have, in the order of the feature vector.\<close>

definition required_keys :: "string list" where
  "required_keys =
     [''amount'', ''time'',
      ''v1'', ''v2'', ''v3'', ''v4'', ''v5'', ''v6'', ''v7'', ''v8'', ''v9'', ''v10'',
      ''v11'', ''v12'', ''v13'', ''v14'', ''v15'', ''v16'', ''v17'', ''v18'', ''v19'', ''v20'',
      ''v21'', ''v22'', ''v23'', ''v24'', ''v25'', ''v26'', ''v27'', ''v28'']"

section \<open>Transaction entry (main, lines 199-256)\<close>

text \<open>
  \<^verbatim>\<open>st.number_input\<close> takes an entry only within its bounds: the widget commits no
  number below \<^verbatim>\<open>min_value\<close> or above \<^verbatim>\<open>max_value\<close>. A bound \<open>None\<close> is no bound; the
  result \<open>None\<close> is an entry not taken. Decimal constants stand for the decimal number
  written.
\<close>

definition number_input :: "'a::linorder option \<Rightarrow> 'a option \<Rightarrow> 'a \<Rightarrow> 'a option" where
  "number_input min_value max_value entry =
     (if (case min_value of None \<Rightarrow> True | Some lo \<Rightarrow> lo \<le> entry) \<and>
         (case max_value of None \<Rightarrow> True | Some hi \<Rightarrow> entry \<le> hi)
      then Some entry else None)"

text \<open>The dictionary filled from the widgets' values (lines 207-232).\<close>

definition manual_fields :: "real \<Rightarrow> int \<Rightarrow> (nat \<Rightarrow> real) \<Rightarrow> (string \<times> pyval) list" where
  "manual_fields amount time v =
     fold (\<lambda>i. dict_set (v_key i) (PyFloat (v i))) ([1..<11] @ [11..<21] @ [21..<29])
       (dict_set ''time'' (PyInt time) (dict_set ''amount'' (PyFloat amount) []))"

text \<open>
  The manual form as the user meets it: the amount widget has \<^verbatim>\<open>min_value=0.01\<close>, the
  time widget \<^verbatim>\<open>min_value=0, max_value=86400\<close> on integers, a V widget no bound.
\<close>

definition manual_form :: "real \<Rightarrow> int \<Rightarrow> (nat \<Rightarrow> real) \<Rightarrow> pyval option" where
  "manual_form amount_entry time_entry v_entry =
     (case number_input (Some (1 / 100)) None amount_entry of
        None \<Rightarrow> None
      | Some amount \<Rightarrow>
          (case number_input (Some 0) (Some 86400) time_entry of
             None \<Rightarrow> None
           | Some time \<Rightarrow> Some (PyDict (manual_fields amount time v_entry))))"

text \<open>
  The JSON branch (lines 242-256). \<^verbatim>\<open>json.loads\<close> is a parameter; only its
  JSONDecodeError is caught. An empty text area is no input: the sample is used, silently.
\<close>

definition json_section ::
  "(string \<Rightarrow> py_error + pyval) \<Rightarrow> (nat \<Rightarrow> real \<Rightarrow> real \<Rightarrow> real) \<Rightarrow> string
     \<Rightarrow> py_error + (event list \<times> pyval)" where
  "json_section json_loads normal json_input =
     (if json_input \<noteq> [] then
        (case json_loads json_input of
           Inr transaction_data \<Rightarrow> Inr ([Json_valid], transaction_data)
         | Inl e \<Rightarrow>
             (if e = JSONDecodeError
              then Inr ([Json_invalid], create_sample_transaction normal)
              else Inl e))
      else Inr ([], create_sample_transaction normal))"

section \<open>Model loading and the page (load_ml_models, main)\<close>

text \<open>
  The collaborators of the page: \<^verbatim>\<open>load_models\<close> and \<^verbatim>\<open>process_transaction\<close> of the
  module \<^verbatim>\<open>prediction\<close>, \<^verbatim>\<open>json.loads\<close> and the random draws. The registry maps
  model keys to handles of an arbitrary type; a Python function may also return None.
\<close>

record 'h world =
  load_models :: "py_error + (string \<times> 'h) list option"
  process_transaction :: "pyval \<Rightarrow> (string \<times> 'h) list \<Rightarrow> py_error + predictions"
  json_loads :: "string \<Rightarrow> py_error + pyval"
  normal :: "nat \<Rightarrow> real \<Rightarrow> real \<Rightarrow> real"

text \<open>The entry method chosen in the sidebar, with the values the widgets return.\<close>

datatype data_input =
    Manual real int "nat \<Rightarrow> real"
  | Ejemplo_Normal
  | Ejemplo_Fraudulento
  | JSON string

record inputs =
  data_input_method :: data_input
  analyze_clicked :: bool
  visualize_clicked :: bool

definition load_ml_models ::
  "(py_error + (string \<times> 'h) list option) \<Rightarrow> event list \<times> (string \<times> 'h) list option" where
  "load_ml_models loaded =
     (case loaded of Inl e \<Rightarrow> ([Load_error e], None) | Inr models \<Rightarrow> ([], models))"

fun transaction_section :: "'h world \<Rightarrow> data_input \<Rightarrow> py_error + (event list \<times> pyval)" where
  "transaction_section w (Manual amount time v) = Inr ([], PyDict (manual_fields amount time v))"
| "transaction_section w Ejemplo_Normal =
     (let transaction_data = create_sample_transaction (normal w)
      in Inr ([Show_json transaction_data], transaction_data))"
| "transaction_section w Ejemplo_Fraudulento =
     (let transaction_data = create_fraud_sample (normal w)
      in Inr ([Show_json transaction_data], transaction_data))"
| "transaction_section w (JSON json_input) = json_section (json_loads w) (normal w) json_input"

definition main :: "'h world \<Rightarrow> inputs \<Rightarrow> event list" where
  "main w inp =
     (case load_ml_models (load_models w) of
        (shown, None) \<Rightarrow> shown @ [Models_unavailable]
      | (shown, Some models) \<Rightarrow>
          shown @ [Models_loaded (length models)] @
          (case transaction_section w (data_input_method inp) of
             Inl e \<Rightarrow> [Uncaught e]
           | Inr (entered, transaction_data) \<Rightarrow>
               entered @
               (if analyze_clicked inp
                then analyze_button (process_transaction w) transaction_data models else []) @
               (if visualize_clicked inp
                then visualize_button (process_transaction w) transaction_data models else [])))"

section \<open>The normalisation rule as the specification words it\<close>

definition value_of :: "py_error + 'a \<Rightarrow> 'a option" where
  "value_of r = (case r of Inl e \<Rightarrow> None | Inr v \<Rightarrow> Some v)"

text \<open>
  For the model key svc the named fields non_fraud and fraud; for every other key the
  positional elements 0 (normal) and 1 (fraud).
\<close>

definition canonical_pair :: "string \<Rightarrow> raw_output \<Rightarrow> (real \<times> real) option" where
  "canonical_pair key pred =
     (case (if key = ''svc''
            then (value_of (subscript pred (Str ''non_fraud'')), value_of (subscript pred (Str ''fraud'')))
            else (value_of (subscript pred (Idx 0)), value_of (subscript pred (Idx 1)))) of
        (Some normal_probability, Some fraud_probability) \<Rightarrow>
          Some (normal_probability, fraud_probability)
      | _ \<Rightarrow> None)"

section \<open>Rows of the detail table\<close>

text \<open>What the loop of the detail table appends for one entry of the predictions.\<close>

definition table_row :: "string \<Rightarrow> raw_output \<Rightarrow> row \<Rightarrow> bool" where
  "table_row model_name pred r \<longleftrightarrow>
     modelo r = display_model model_name \<and>
     table_pair model_name pred = Inr (probabilidad_normal r, probabilidad_fraude r) \<and>
     prediccion r = (if 1 / 2 < probabilidad_fraude r then FRAUDE else NORMAL)"

section \<open>Further predicates on values and events\<close>

fun is_float :: "pyval \<Rightarrow> bool" where
  "is_float (PyFloat x) = True"
| "is_float y = False"

fun is_uncaught :: "event \<Rightarrow> bool" where
  "is_uncaught (Uncaught e) = True"
| "is_uncaught ev = False"

section \<open>Example inputs\<close>

text \<open>Four well-formed model outputs whose fraud probabilities average exactly one half.\<close>

definition ex_predictions :: predictions where
  "ex_predictions =
     [(''logistic'', Positional [3 / 4, 1 / 4]),
      (''kneighbors'', Positional [1 / 8, 7 / 8]),
      (''svc'', Named [(Str ''non_fraud'', 1 / 2), (Str ''fraud'', 1 / 2)]),
      (''tree'', Positional [5 / 8, 3 / 8])]"

definition ex_results_df :: "row list" where
  "ex_results_df =
     [\<lparr>modelo = ''Logistic'', probabilidad_normal = 3 / 4, probabilidad_fraude = 1 / 4,
       prediccion = NORMAL\<rparr>,
      \<lparr>modelo = ''Kneighbors'', probabilidad_normal = 1 / 8, probabilidad_fraude = 7 / 8,
       prediccion = FRAUDE\<rparr>,
      \<lparr>modelo = ''Svc'', probabilidad_normal = 1 / 2, probabilidad_fraude = 1 / 2,
       prediccion = NORMAL\<rparr>,
      \<lparr>modelo = ''Tree'', probabilidad_normal = 5 / 8, probabilidad_fraude = 3 / 8,
       prediccion = NORMAL\<rparr>]"

text \<open>A world whose scoring always reports the example predictions and whose JSON parser
  rejects every text.\<close>

definition ex_world :: "unit world" where
  "ex_world =
     \<lparr>load_models = Inr (Some [(''logistic'', ()), (''kneighbors'', ()), (''svc'', ()), (''tree'', ())]),
      process_transaction = (\<lambda>transaction_data models. Inr ex_predictions),
      json_loads = (\<lambda>text. Inl JSONDecodeError),
      normal = (\<lambda>i loc scale. loc)\<rparr>"

text \<open>
  Predictions in which one model reports three numbers, predictions in which one reports a
  single number, and a run of the page on a JSON text that does not parse, with both buttons
  pressed.
\<close>

definition ex_three_elements :: predictions where
  "ex_three_elements =
     [(''logistic'', Positional [1 / 8, 1 / 4, 5 / 8]),
      (''kneighbors'', Positional [1 / 8, 7 / 8]),
      (''svc'', Named [(Str ''non_fraud'', 1 / 2), (Str ''fraud'', 1 / 2)]),
      (''tree'', Positional [5 / 8, 3 / 8])]"


definition ex_inputs :: inputs where
  "ex_inputs = \<lparr>data_input_method = JSON ''{amount: '', analyze_clicked = True,
                 visualize_clicked = True\<rparr>"

text \<open>Predictions whose svc output has the field fraud only.\<close>

definition ex_svc_fraud_only :: predictions where
  "ex_svc_fraud_only =
     [(''logistic'', Positional [3 / 4, 1 / 4]),
      (''kneighbors'', Positional [1 / 8, 7 / 8]),
      (''svc'', Named [(Str ''fraud'', 1 / 2)]),
      (''tree'', Positional [5 / 8, 3 / 8])]"

text \<open>
  A text of 100000 opening brackets, on which \<^verbatim>\<open>json.loads\<close> raises RecursionError, a
  world whose parser does so, and a run of the page on that text with both buttons pressed.
\<close>

definition deep_nesting :: string where
  "deep_nesting = replicate 100000 (CHR ''['')"

definition ex_world_deep :: "unit world" where
  "ex_world_deep =
     ex_world\<lparr>json_loads :=
       (\<lambda>text. if text = deep_nesting then Inl RecursionError else Inl JSONDecodeError)\<rparr>"

definition ex_inputs_deep :: inputs where
  "ex_inputs_deep = \<lparr>data_input_method = JSON deep_nesting, analyze_clicked = True,
                      visualize_clicked = True\<rparr>"


section \<open>Reading the predictions by entry and by key\<close>

lemma getitem_entry:
  assumes "distinct (map fst predictions)" and "(k, p) \<in> set predictions"
  shows "getitem predictions k = Inr p"
proof -
  from assms have "map_of predictions k = Some p" by (rule map_of_is_SomeI)
  then show ?thesis by (simp add: getitem_def)
qed

lemma model_fraud_prob_entry:
  assumes "distinct (map fst predictions)" and "(k, p) \<in> set predictions"
  shows "model_fraud_prob predictions k = fraud_prob_of k p"
  using getitem_entry [OF assms]
  by (cases "k = ''svc''") (simp_all add: model_fraud_prob_def fraud_prob_of_def getitem2_def)

lemma collect_fraud_probs_all:
  "list_all2 (\<lambda>(k, p) x. fraud_prob_of k p = Inr x) ps xs \<Longrightarrow>
     collect_fraud_probs ps acc = Inr (acc @ xs)"
proof (induction ps arbitrary: xs acc)
  case Nil
  then show ?case by simp
next
  case (Cons a ps)
  then obtain x xs' where xs: "xs = x # xs'" by (auto simp: list_all2_Cons1)
  obtain k p where a: "a = (k, p)" by (cases a)
  from Cons.prems xs a have h: "fraud_prob_of k p = Inr x"
    and t: "list_all2 (\<lambda>(k, p) x. fraud_prob_of k p = Inr x) ps xs'" by auto
  show ?case using Cons.IH [OF t, of "acc @ [x]"] h by (simp add: a xs)
qed


lemma collect_by_key:
  assumes d: "distinct (map fst predictions)"
    and ok: "\<And>k. k \<in> set (map fst predictions) \<Longrightarrow> model_fraud_prob predictions k = Inr (g k)"
  shows "collect_fraud_probs predictions [] = Inr (map g (map fst predictions))"
proof -
  have "list_all2 (\<lambda>(k, p) x. fraud_prob_of k p = Inr x) predictions (map g (map fst predictions))"
    unfolding list_all2_conv_all_nth
  proof (intro conjI allI impI)
    show "length predictions = length (map g (map fst predictions))" by simp
  next
    fix i assume i: "i < length predictions"
    obtain k p where kp: "predictions ! i = (k, p)" by (cases "predictions ! i")
    with i have m: "(k, p) \<in> set predictions" by (metis nth_mem)
    then have "k \<in> set (map fst predictions)" by force
    from ok [OF this] model_fraud_prob_entry [OF d m] have "fraud_prob_of k p = Inr (g k)" by simp
    then show "(case predictions ! i of (k, p) \<Rightarrow> \<lambda>x. fraud_prob_of k p = Inr x)
       (map g (map fst predictions) ! i)" using i kp by simp
  qed
  from collect_fraud_probs_all [OF this, of "[]"] show ?thesis by simp
qed

lemma chart_fraud_probs_by_key:
  assumes "\<And>k. k \<in> set models \<Longrightarrow> model_fraud_prob predictions k = Inr (g k)"
  shows "chart_fraud_probs predictions models acc = Inr (acc @ map g models)"
  using assms by (induction models arbitrary: acc) simp_all

lemma four_keys_sum:
  fixes g :: "string \<Rightarrow> real"
  assumes "distinct ks" and "set ks = set model_keys"
  shows "sum_list (map g ks) = g ''logistic'' + g ''kneighbors'' + g ''svc'' + g ''tree''"
    and "length ks = 4"
    and "set (map g ks) = {g ''logistic'', g ''kneighbors'', g ''svc'', g ''tree''}"
proof -
  have "sum_list (map g ks) = sum g (set ks)"
    using assms(1) by (simp add: sum.distinct_set_conv_list)
  also have "\<dots> = sum g {''logistic'', ''kneighbors'', ''svc'', ''tree''}"
    using assms(2) by (simp add: model_keys_def)
  also have "\<dots> = g ''logistic'' + g ''kneighbors'' + g ''svc'' + g ''tree''"
    by simp
  finally show "sum_list (map g ks) = g ''logistic'' + g ''kneighbors'' + g ''svc'' + g ''tree''" .
  have "length ks = card (set ks)" using assms(1) by (simp add: distinct_card)
  also have "\<dots> = card {''logistic'', ''kneighbors'', ''svc'', ''tree''}"
    using assms(2) by (simp add: model_keys_def)
  also have "\<dots> = 4" by simp
  finally show "length ks = 4" .
  show "set (map g ks) = {g ''logistic'', g ''kneighbors'', g ''svc'', g ''tree''}"
    using assms(2) by (simp add: model_keys_def)
qed

section \<open>Aggregate mean and maximum\<close>

text \<open>
  Claim C1. When the predictions hold exactly the four model keys, the mean computed by the
  analysis handler (and shown by the gauge of the visualisations) is the sum of the four
  models' fraud probabilities divided by four, and the maximum shown is the greatest of the
  four. The fraud probability of a model is the one read under its key.
\<close>

theorem mean_max_of_four_models:
  assumes d: "distinct (map fst predictions)"
    and keys: "set (map fst predictions) = set model_keys"
    and l: "model_fraud_prob predictions ''logistic'' = Inr fl"
    and k: "model_fraud_prob predictions ''kneighbors'' = Inr fk"
    and s: "model_fraud_prob predictions ''svc'' = Inr fs"
    and t: "model_fraud_prob predictions ''tree'' = Inr ft"
  shows "aggregate_metrics predictions =
           Inr (Some ((fl + fk + fs + ft) / 4), Max {fl, fk, fs, ft}) \<and>
         (\<exists>fig1 fig2. plot_predictions predictions = Inr (fig1, fig2) \<and>
            gauge_value fig2 = Some ((fl + fk + fs + ft) / 4))"
proof -
  define g where "g = (\<lambda>key. case model_fraud_prob predictions key of Inl e \<Rightarrow> 0 | Inr x \<Rightarrow> x)"
  have g4: "g ''logistic'' = fl" "g ''kneighbors'' = fk" "g ''svc'' = fs" "g ''tree'' = ft"
    by (simp_all add: g_def l k s t)
  have ok: "model_fraud_prob predictions key = Inr (g key)"
    if "key \<in> set (map fst predictions)" for key
    using that l k s t unfolding keys model_keys_def g_def by auto
  define fps where "fps = map g (map fst predictions)"
  have c: "collect_fraud_probs predictions [] = Inr fps"
    unfolding fps_def by (rule collect_by_key [OF d ok])
  have ch: "chart_fraud_probs predictions (map fst predictions) [] = Inr fps"
    unfolding fps_def
    using chart_fraud_probs_by_key [of "map fst predictions" predictions g "[]"] ok by simp
  have len: "length fps = 4"
    unfolding fps_def using four_keys_sum(2) [OF d keys] by simp
  then have ne: "fps \<noteq> []" by auto
  have mean: "np_mean fps = Some ((fl + fk + fs + ft) / 4)"
    using ne len four_keys_sum(1) [OF d keys, of g] by (simp add: np_mean_def g4 fps_def)
  have mx: "np_max fps = Inr (Max {fl, fk, fs, ft})"
    using ne four_keys_sum(3) [OF d keys, of g] by (simp add: np_max_def g4 fps_def)
  have "aggregate_metrics predictions = Inr (Some ((fl + fk + fs + ft) / 4), Max {fl, fk, fs, ft})"
    by (simp add: aggregate_metrics_def c mean mx)
  moreover have "\<exists>fig1 fig2. plot_predictions predictions = Inr (fig1, fig2) \<and>
      gauge_value fig2 = Some ((fl + fk + fs + ft) / 4)"
    by (simp add: plot_predictions_def Let_def ch mean)
  ultimately show ?thesis by blast
qed

theorem mean_max_of_four_models_witness:
  "aggregate_metrics ex_predictions = Inr (Some (1 / 2), 7 / 8)"
proof -
  have "aggregate_metrics ex_predictions =
           Inr (Some ((1 / 4 + 7 / 8 + 1 / 2 + 3 / 8) / 4), Max {1 / 4, 7 / 8, 1 / 2, 3 / 8 :: real})"
    using mean_max_of_four_models [of ex_predictions "1 / 4" "7 / 8" "1 / 2" "3 / 8"]
    by (simp add: ex_predictions_def model_keys_def model_fraud_prob_def getitem2_def getitem_def)
  then show ?thesis by simp
qed

section \<open>The alert\<close>

lemma metrics_panel_only_metrics:
  "list_all is_metric (fst (metrics_panel predictions shown))"
  by (induction shown) (auto split: sum.splits prod.splits)

lemma metric_not_alert:
  "list_all is_metric evs \<Longrightarrow> \<not> list_ex is_fraud_alert evs \<and> \<not> list_ex is_safe_alert evs"
proof (induction evs)
  case Nil
  then show ?case by simp
next
  case (Cons ev evs)
  then show ?case by (cases ev) simp_all
qed

lemma aggregate_metrics_mean:
  assumes "aggregate_metrics predictions = Inr (avg, mx)"
  shows "\<exists>mean. avg = Some mean"
  using assms
  by (auto simp: aggregate_metrics_def np_mean_def np_max_def Let_def split: sum.splits if_splits)

lemma show_results_alert:
  assumes "aggregate_metrics predictions = Inr (avg, mx)"
  shows "\<exists>shown err. list_all is_metric shown \<and>
     show_results predictions =
       ((if py_gt avg (1 / 2) then Fraud_alert avg mx else Safe_alert avg mx) # shown, err)"
proof -
  obtain shown err where p: "metrics_panel predictions (zip model_names model_keys) = (shown, err)"
    by (cases "metrics_panel predictions (zip model_names model_keys)")
  have "list_all is_metric shown"
    using metrics_panel_only_metrics [of predictions "zip model_names model_keys"] p by simp
  then show ?thesis using assms p by (simp add: show_results_def)
qed

text \<open>
  Claim C2. For a scored transaction whose aggregate is computed, the mean is a number, and
  the analysis shows the fraud alert exactly when that mean is above one half and the safe
  message exactly when it is at most one half; a mean of exactly one half is reported safe.
\<close>

theorem alert_iff_mean_above_half:
  assumes scored: "process_transaction w transaction_data models = Inr predictions"
    and agg: "aggregate_metrics predictions = Inr (avg, mx)"
  shows "\<exists>mean. avg = Some mean \<and>
           (list_ex is_fraud_alert (analyze_button (process_transaction w) transaction_data models)
              \<longleftrightarrow> 1 / 2 < mean) \<and>
           (list_ex is_safe_alert (analyze_button (process_transaction w) transaction_data models)
              \<longleftrightarrow> mean \<le> 1 / 2)"
proof -
  from aggregate_metrics_mean [OF agg] obtain mean where avg: "avg = Some mean" by blast
  from show_results_alert [OF agg] obtain shown err where m: "list_all is_metric shown"
    and r: "show_results predictions =
       ((if py_gt avg (1 / 2) then Fraud_alert avg mx else Safe_alert avg mx) # shown, err)"
    by blast
  from metric_not_alert [OF m]
  have na: "\<not> list_ex is_fraud_alert shown" "\<not> list_ex is_safe_alert shown"
    by simp_all
  have "(list_ex is_fraud_alert (analyze_button (process_transaction w) transaction_data models)
              \<longleftrightarrow> 1 / 2 < mean) \<and>
        (list_ex is_safe_alert (analyze_button (process_transaction w) transaction_data models)
              \<longleftrightarrow> mean \<le> 1 / 2)"
    using na by (cases err) (auto simp: analyze_button_def scored r avg)
  with avg show ?thesis by blast
qed

theorem alert_iff_mean_above_half_witness:
  "aggregate_metrics ex_predictions = Inr (Some (1 / 2), 7 / 8) \<and>
   \<not> list_ex is_fraud_alert (analyze_button (process_transaction ex_world) PyNone []) \<and>
   list_ex is_safe_alert (analyze_button (process_transaction ex_world) PyNone [])"
proof -
  have s: "process_transaction ex_world PyNone [] = Inr ex_predictions"
    by (simp add: ex_world_def)
  have a: "aggregate_metrics ex_predictions = Inr (Some (1 / 2), 7 / 8)"
    by (simp add: aggregate_metrics_def ex_predictions_def fraud_prob_of_def np_mean_def np_max_def)
  from alert_iff_mean_above_half [OF s a] obtain mean :: real where "Some (1 / 2) = Some mean"
    and "list_ex is_fraud_alert (analyze_button (process_transaction ex_world) PyNone [])
           \<longleftrightarrow> 1 / 2 < mean"
    and "list_ex is_safe_alert (analyze_button (process_transaction ex_world) PyNone [])
           \<longleftrightarrow> mean \<le> 1 / 2"
    by blast
  with a show ?thesis by auto
qed

section \<open>One normalisation rule at every site\<close>

lemma display_model_names:
  "display_model ''logistic'' = ''Logistic''" "display_model ''kneighbors'' = ''Kneighbors''"
  "display_model ''svc'' = ''Svc''" "display_model ''tree'' = ''Tree''"
  by (simp_all add: display_model_def py_replace_def py_title_def is_cased_def upper_char_def
      lower_char_def ascii_lower_def ascii_upper_def)

lemma getitem_Inr_entry:
  "getitem predictions k = Inr p \<Longrightarrow> (k, p) \<in> set predictions"
  by (auto simp: getitem_def split: option.splits dest: map_of_SomeD)

lemma table_pair_canonical: "value_of (table_pair key pred) = canonical_pair key pred"
  by (cases "key = ''svc''")
     (auto simp: table_pair_def canonical_pair_def value_of_def split: sum.splits)

lemma panel_pair_entry:
  assumes "getitem predictions key = Inr pred"
  shows "value_of (panel_pair predictions key) = canonical_pair key pred"
  using assms
  by (cases "key = ''svc''")
     (auto simp: panel_pair_def getitem2_def canonical_pair_def value_of_def split: sum.splits)

lemma canonical_pair_fraud:
  "canonical_pair key pred = Some (n, f) \<Longrightarrow> fraud_prob_of key pred = Inr f"
  by (cases "key = ''svc''")
     (auto simp: canonical_pair_def fraud_prob_of_def value_of_def split: sum.splits option.splits)

lemma value_of_Some: "value_of r = Some v \<longleftrightarrow> r = Inr v"
  by (cases r) (simp_all add: value_of_def)

lemma detail_table_rows:
  "detail_table ps acc = Inr rows \<Longrightarrow>
     \<exists>new. rows = acc @ new \<and> list_all2 (\<lambda>(k, p) r. table_row k p r) ps new"
proof (induction ps arbitrary: acc)
  case Nil
  then show ?case by simp
next
  case (Cons a ps)
  obtain k p where a: "a = (k, p)" by (cases a)
  from Cons.prems a obtain n f where tp: "table_pair k p = Inr (n, f)"
    and r: "detail_table ps
       (acc @ [\<lparr>modelo = display_model k, probabilidad_normal = n, probabilidad_fraude = f,
                prediccion = (if 1 / 2 < f then FRAUDE else NORMAL)\<rparr>]) = Inr rows"
    by (auto split: sum.splits)
  let ?r = "\<lparr>modelo = display_model k, probabilidad_normal = n, probabilidad_fraude = f,
             prediccion = (if 1 / 2 < f then FRAUDE else NORMAL)\<rparr>"
  from Cons.IH [OF r] obtain new where "rows = (acc @ [?r]) @ new"
    and "list_all2 (\<lambda>(k, p) r. table_row k p r) ps new" by blast
  moreover have "table_row k p ?r" using tp by (simp add: table_row_def)
  ultimately show ?case using a by (intro exI [of _ "?r # new"]) simp
qed

lemma table_row_fraud:
  assumes "table_row k p r"
  shows "fraud_prob_of k p = Inr (probabilidad_fraude r)"
proof -
  from assms have "value_of (table_pair k p) = Some (probabilidad_normal r, probabilidad_fraude r)"
    by (simp add: table_row_def value_of_def)
  then show ?thesis
    using canonical_pair_fraud by (simp add: table_pair_canonical)
qed

lemma chart_fraud_probs_all:
  "list_all2 (\<lambda>k x. model_fraud_prob predictions k = Inr x) models xs \<Longrightarrow>
     chart_fraud_probs predictions models acc = Inr (acc @ xs)"
proof (induction models arbitrary: xs acc)
  case Nil
  then show ?case by simp
next
  case (Cons k models)
  then obtain x xs' where xs: "xs = x # xs'" by (auto simp: list_all2_Cons1)
  from Cons.prems xs have h: "model_fraud_prob predictions k = Inr x"
    and t: "list_all2 (\<lambda>k x. model_fraud_prob predictions k = Inr x) models xs'" by auto
  show ?case using Cons.IH [OF t, of "acc @ [x]"] h by (simp add: xs)
qed

lemma table_row_of_entry:
  assumes "list_all2 (\<lambda>(k, p) r. table_row k p r) ps rows" and "(k, p) \<in> set ps"
  shows "\<exists>r \<in> set rows. table_row k p r"
  using assms by (induction rule: list_all2_induct) auto

lemma plot_of_table:
  assumes d: "distinct (map fst predictions)"
    and t: "detail_table predictions [] = Inr results_df"
  shows "\<exists>fig1 fig2. plot_predictions predictions = Inr (fig1, fig2) \<and>
           bar_x fig1 = map fst predictions \<and> bar_y fig1 = map probabilidad_fraude results_df"
proof -
  from detail_table_rows [OF t]
  have rows: "list_all2 (\<lambda>(k, p) r. table_row k p r) predictions results_df" by simp
  have "list_all2 (\<lambda>kp r. model_fraud_prob predictions (fst kp) = Inr (probabilidad_fraude r))
          predictions results_df"
    using rows
  proof (rule list.rel_mono_strong)
    fix kp r assume m: "kp \<in> set predictions" and tr: "(case kp of (k, p) \<Rightarrow> table_row k p) r"
    obtain k p where kp: "kp = (k, p)" by (cases kp)
    from tr kp have "table_row k p r" by simp
    from table_row_fraud [OF this] model_fraud_prob_entry [OF d, of k p] m kp
    show "model_fraud_prob predictions (fst kp) = Inr (probabilidad_fraude r)" by simp
  qed
  then have c: "list_all2 (\<lambda>k x. model_fraud_prob predictions k = Inr x)
       (map fst predictions) (map probabilidad_fraude results_df)"
    by (simp add: list_all2_map1 list_all2_map2)
  from chart_fraud_probs_all [OF c, of "[]"] show ?thesis
    by (simp add: plot_predictions_def Let_def)
qed

lemma table_pair_complete:
  "canonical_pair k p \<noteq> None \<Longrightarrow> \<exists>n f. table_pair k p = Inr (n, f)"
  using table_pair_canonical [of k p] by (cases "table_pair k p") (auto simp: value_of_def)

lemma detail_table_total:
  "(\<And>k p. (k, p) \<in> set ps \<Longrightarrow> canonical_pair k p \<noteq> None) \<Longrightarrow>
     \<exists>rows. detail_table ps acc = Inr rows"
proof (induction ps arbitrary: acc)
  case Nil
  then show ?case by simp
next
  case (Cons a ps)
  obtain k p where a: "a = (k, p)" by (cases a)
  from Cons.prems a have "canonical_pair k p \<noteq> None" by simp
  from table_pair_complete [OF this] obtain n f where tp: "table_pair k p = Inr (n, f)" by blast
  have "canonical_pair k' p' \<noteq> None" if "(k', p') \<in> set ps" for k' p'
    using Cons.prems [of k' p'] that by simp
  then have "\<exists>rows. detail_table ps
      (acc @ [\<lparr>modelo = display_model k, probabilidad_normal = n, probabilidad_fraude = f,
               prediccion = (if 1 / 2 < f then FRAUDE else NORMAL)\<rparr>]) = Inr rows"
    by (rule Cons.IH)
  then show ?case by (simp add: a tp)
qed

lemma detail_table_needs_pairs:
  assumes "detail_table ps [] = Inr rows" and "(k, p) \<in> set ps"
  shows "canonical_pair k p \<noteq> None"
proof -
  from detail_table_rows [OF assms(1)]
  have "list_all2 (\<lambda>(k, p) r. table_row k p r) ps rows" by simp
  from table_row_of_entry [OF this assms(2)] obtain r where "table_row k p r" by blast
  then have "value_of (table_pair k p) \<noteq> None" by (simp add: table_row_def value_of_def)
  then show ?thesis by (simp add: table_pair_canonical)
qed

lemma panel_pair_Inr:
  assumes "panel_pair predictions key = Inr (n, f)"
  shows "\<exists>pred. (key, pred) \<in> set predictions \<and> canonical_pair key pred = Some (n, f)"
proof -
  from assms obtain pred where g: "getitem predictions key = Inr pred"
    by (cases "getitem predictions key")
       (auto simp: panel_pair_def getitem2_def split: if_splits)
  from panel_pair_entry [OF g] assms have "canonical_pair key pred = Some (n, f)"
    by (simp add: value_of_def)
  with getitem_Inr_entry [OF g] show ?thesis by blast
qed

lemma metrics_panel_complete:
  "(\<And>name key. (name, key) \<in> set zs \<Longrightarrow> \<exists>n f. panel_pair predictions key = Inr (n, f)) \<Longrightarrow>
     \<exists>shown. metrics_panel predictions zs = (shown, None) \<and>
       list_all2 (\<lambda>(name, key) ev.
          \<exists>pred n f. (key, pred) \<in> set predictions \<and> canonical_pair key pred = Some (n, f) \<and>
             ev = Metric name f n) zs shown"
proof (induction zs)
  case Nil
  then show ?case by simp
next
  case (Cons z zs)
  obtain name key where z: "z = (name, key)" by (cases z)
  from Cons.prems [of name key] z obtain n f where pp: "panel_pair predictions key = Inr (n, f)"
    by auto
  from panel_pair_Inr [OF pp] obtain pred where e: "(key, pred) \<in> set predictions"
    and c: "canonical_pair key pred = Some (n, f)" by blast
  have "\<exists>n f. panel_pair predictions key' = Inr (n, f)" if "(name', key') \<in> set zs"
    for name' key'
    using Cons.prems [of name' key'] that by simp
  then have "\<exists>shown. metrics_panel predictions zs = (shown, None) \<and>
       list_all2 (\<lambda>(name, key) ev.
          \<exists>pred n f. (key, pred) \<in> set predictions \<and> canonical_pair key pred = Some (n, f) \<and>
             ev = Metric name f n) zs shown"
    by (rule Cons.IH)
  then obtain shown where r: "metrics_panel predictions zs = (shown, None)"
    and l: "list_all2 (\<lambda>(name, key) ev.
          \<exists>pred n f. (key, pred) \<in> set predictions \<and> canonical_pair key pred = Some (n, f) \<and>
             ev = Metric name f n) zs shown" by blast
  have "metrics_panel predictions (z # zs) = (Metric name f n # shown, None)"
    by (simp add: z pp r)
  moreover have "list_all2 (\<lambda>(name, key) ev.
          \<exists>pred n f. (key, pred) \<in> set predictions \<and> canonical_pair key pred = Some (n, f) \<and>
             ev = Metric name f n) (z # zs) (Metric name f n # shown)"
    using l e c by (auto simp: z)
  ultimately show ?case by blast
qed

lemma panel_of_four:
  assumes d: "distinct (map fst predictions)"
    and complete: "\<And>key pred. (key, pred) \<in> set predictions \<Longrightarrow> canonical_pair key pred \<noteq> None"
    and four: "set model_keys \<subseteq> set (map fst predictions)"
  shows "\<exists>shown. metrics_panel predictions (zip model_names model_keys) = (shown, None) \<and>
       list_all2 (\<lambda>(name, key) ev.
          \<exists>pred n f. (key, pred) \<in> set predictions \<and> canonical_pair key pred = Some (n, f) \<and>
             ev = Metric name f n) (zip model_names model_keys) shown"
proof (rule metrics_panel_complete)
  fix name key assume "(name, key) \<in> set (zip model_names model_keys)"
  then have "key \<in> set model_keys" by (rule set_zip_rightD)
  with four obtain pred where m: "(key, pred) \<in> set predictions" by auto
  from complete [OF m] obtain n f where "canonical_pair key pred = Some (n, f)" by auto
  with panel_pair_entry [OF getitem_entry [OF d m]]
  have "panel_pair predictions key = Inr (n, f)" by (simp add: value_of_Some)
  then show "\<exists>n f. panel_pair predictions key = Inr (n, f)" by blast
qed

lemma table_of_pairs:
  assumes "detail_table predictions [] = Inr results_df"
  shows "list_all2 (\<lambda>(key, pred) r. modelo r = display_model key \<and>
           canonical_pair key pred = Some (probabilidad_normal r, probabilidad_fraude r))
         predictions results_df"
proof -
  from detail_table_rows [OF assms]
  have "list_all2 (\<lambda>(k, p) r. table_row k p r) predictions results_df" by simp
  then show ?thesis
  proof (rule list_all2_mono)
    fix kp r assume "(case kp of (k, p) \<Rightarrow> table_row k p) r"
    then obtain k p where kp: "kp = (k, p)" and tr: "table_row k p r" by (cases kp) simp
    from tr have "value_of (table_pair k p) = Some (probabilidad_normal r, probabilidad_fraude r)"
      by (simp add: table_row_def value_of_def)
    then have "canonical_pair k p = Some (probabilidad_normal r, probabilidad_fraude r)"
      by (simp add: table_pair_canonical)
    with tr kp show "(case kp of (key, pred) \<Rightarrow> \<lambda>r. modelo r = display_model key \<and>
           canonical_pair key pred = Some (probabilidad_normal r, probabilidad_fraude r)) r"
      by (simp add: table_row_def)
  qed
qed

text \<open>
  Claim C3, as amended. The rule is: under the key svc the named fields non_fraud and fraud,
  under every other key the positional elements 0 and 1. At every entry of the predictions
  the per-model panel and the detail table yield the pair this rule gives and fail when it
  gives none; the bar chart reads under the key what the aggregate loop reads from the entry,
  which is the fraud half of the pair whenever the pair exists. The detail table is built
  exactly when every entry has its pair. Then the bar chart is drawn too, with every key of
  the predictions and the fraud probabilities of the table rows in the same order; and when
  the four model keys are among the keys, the panel shows its four metrics, each with the
  pair of its model.
\<close>

theorem one_normalisation_rule:
  assumes d: "distinct (map fst predictions)"
  shows "(\<forall>key pred. (key, pred) \<in> set predictions \<longrightarrow>
            value_of (panel_pair predictions key) = canonical_pair key pred \<and>
            value_of (table_pair key pred) = canonical_pair key pred \<and>
            model_fraud_prob predictions key = fraud_prob_of key pred \<and>
            (\<forall>n f. canonical_pair key pred = Some (n, f) \<longrightarrow> fraud_prob_of key pred = Inr f)) \<and>
         ((\<exists>results_df. detail_table predictions [] = Inr results_df) \<longleftrightarrow>
            (\<forall>key pred. (key, pred) \<in> set predictions \<longrightarrow> canonical_pair key pred \<noteq> None)) \<and>
         (\<forall>results_df. detail_table predictions [] = Inr results_df \<longrightarrow>
            list_all2 (\<lambda>(key, pred) r. modelo r = display_model key \<and>
                canonical_pair key pred = Some (probabilidad_normal r, probabilidad_fraude r))
              predictions results_df \<and>
            (\<exists>fig1 fig2. plot_predictions predictions = Inr (fig1, fig2) \<and>
               bar_x fig1 = map fst predictions \<and>
               bar_y fig1 = map probabilidad_fraude results_df) \<and>
            (set model_keys \<subseteq> set (map fst predictions) \<longrightarrow>
               (\<exists>shown. metrics_panel predictions (zip model_names model_keys) = (shown, None) \<and>
                  list_all2 (\<lambda>(name, key) ev.
                      \<exists>pred n f. (key, pred) \<in> set predictions \<and>
                        canonical_pair key pred = Some (n, f) \<and> ev = Metric name f n)
                    (zip model_names model_keys) shown)))"
proof (intro conjI allI impI)
  fix key pred assume m: "(key, pred) \<in> set predictions"
  show "value_of (panel_pair predictions key) = canonical_pair key pred"
    by (rule panel_pair_entry [OF getitem_entry [OF d m]])
  show "value_of (table_pair key pred) = canonical_pair key pred"
    by (rule table_pair_canonical)
  show "model_fraud_prob predictions key = fraud_prob_of key pred"
    by (rule model_fraud_prob_entry [OF d m])
  fix n f assume c: "canonical_pair key pred = Some (n, f)"
  show "fraud_prob_of key pred = Inr f" by (rule canonical_pair_fraud [OF c])
next
  show "(\<exists>results_df. detail_table predictions [] = Inr results_df) \<longleftrightarrow>
            (\<forall>key pred. (key, pred) \<in> set predictions \<longrightarrow> canonical_pair key pred \<noteq> None)"
    using detail_table_total [of predictions "[]"] detail_table_needs_pairs [of predictions]
    by blast
next
  fix results_df assume t: "detail_table predictions [] = Inr results_df"
  show "list_all2 (\<lambda>(key, pred) r. modelo r = display_model key \<and>
                canonical_pair key pred = Some (probabilidad_normal r, probabilidad_fraude r))
              predictions results_df"
    by (rule table_of_pairs [OF t])
  show "\<exists>fig1 fig2. plot_predictions predictions = Inr (fig1, fig2) \<and>
               bar_x fig1 = map fst predictions \<and>
               bar_y fig1 = map probabilidad_fraude results_df"
    by (rule plot_of_table [OF d t])
  assume four: "set model_keys \<subseteq> set (map fst predictions)"
  show "\<exists>shown. metrics_panel predictions (zip model_names model_keys) = (shown, None) \<and>
                  list_all2 (\<lambda>(name, key) ev.
                      \<exists>pred n f. (key, pred) \<in> set predictions \<and>
                        canonical_pair key pred = Some (n, f) \<and> ev = Metric name f n)
                    (zip model_names model_keys) shown"
    using detail_table_needs_pairs [OF t] by (intro panel_of_four [OF d _ four]) blast
qed
theorem one_normalisation_rule_witness:
  "detail_table ex_predictions [] = Inr ex_results_df \<and>
   (\<exists>fig1 fig2. plot_predictions ex_predictions = Inr (fig1, fig2) \<and>
      bar_x fig1 = [''logistic'', ''kneighbors'', ''svc'', ''tree''] \<and>
      bar_y fig1 = [1 / 4, 7 / 8, 1 / 2, 3 / 8]) \<and>
   metrics_panel ex_predictions (zip model_names model_keys) =
     ([Metric ''Regresion Logistica'' (1 / 4) (3 / 4), Metric ''K-Vecinos'' (7 / 8) (1 / 8),
       Metric ''SVM'' (1 / 2) (1 / 2), Metric ''Arbol de Decision'' (3 / 8) (5 / 8)], None) \<and>
   value_of (panel_pair ex_predictions ''svc'') = Some (1 / 2, 1 / 2)"
proof -
  have d: "distinct (map fst ex_predictions)" by (simp add: ex_predictions_def)
  have t: "detail_table ex_predictions [] = Inr ex_results_df"
    by (simp add: ex_predictions_def ex_results_df_def table_pair_def display_model_names)
  have k: "map fst ex_predictions = [''logistic'', ''kneighbors'', ''svc'', ''tree'']"
    by (simp add: ex_predictions_def)
  have m: "(''svc'', Named [(Str ''non_fraud'', 1 / 2), (Str ''fraud'', 1 / 2)]) \<in> set ex_predictions"
    by (simp add: ex_predictions_def)
  have c: "canonical_pair ''svc'' (Named [(Str ''non_fraud'', 1 / 2), (Str ''fraud'', 1 / 2)])
             = Some (1 / 2, 1 / 2)"
    by (simp add: canonical_pair_def value_of_def)
  have p: "metrics_panel ex_predictions (zip model_names model_keys) =
     ([Metric ''Regresion Logistica'' (1 / 4) (3 / 4), Metric ''K-Vecinos'' (7 / 8) (1 / 8),
       Metric ''SVM'' (1 / 2) (1 / 2), Metric ''Arbol de Decision'' (3 / 8) (5 / 8)], None)"
    by (simp add: model_names_def model_keys_def panel_pair_def getitem2_def getitem_def
        ex_predictions_def)
  note r = one_normalisation_rule [OF d]
  from r [THEN conjunct1, THEN spec, THEN spec, THEN mp, OF m, THEN conjunct1] c
  have v: "value_of (panel_pair ex_predictions ''svc'') = Some (1 / 2, 1 / 2)"
    by simp
  from r [THEN conjunct2, THEN conjunct2, THEN spec, THEN mp, OF t, THEN conjunct2, THEN conjunct1]
  obtain fig1 fig2 where f: "plot_predictions ex_predictions = Inr (fig1, fig2)"
    and x: "bar_x fig1 = map fst ex_predictions"
    and y: "bar_y fig1 = map probabilidad_fraude ex_results_df" by blast
  have "bar_x fig1 = [''logistic'', ''kneighbors'', ''svc'', ''tree'']"
    by (simp only: x k)
  moreover have "bar_y fig1 = [1 / 4, 7 / 8, 1 / 2, 3 / 8]"
    by (simp add: y ex_results_df_def)
  ultimately have b: "\<exists>fig1 fig2. plot_predictions ex_predictions = Inr (fig1, fig2) \<and>
      bar_x fig1 = [''logistic'', ''kneighbors'', ''svc'', ''tree''] \<and>
      bar_y fig1 = [1 / 4, 7 / 8, 1 / 2, 3 / 8]"
    using f by blast
  from t b p v show ?thesis by (intro conjI)
qed

text \<open>
  The claim as stated has all three sites render the same probabilities for every
  predictions mapping. With an svc output that has the field fraud only, the bar chart draws
  four bars, the panel shows two metrics and raises, and the detail table raises at once.
\<close>

theorem sites_differ_without_non_fraud:
  "plot_predictions ex_svc_fraud_only =
     Inr (\<lparr>bar_x = [''logistic'', ''kneighbors'', ''svc'', ''tree''],
            bar_y = [1 / 4, 7 / 8, 1 / 2, 3 / 8],
            marker_color = [Green, Red, Green, Green]\<rparr>,
          \<lparr>gauge_value = Some (1 / 2), gauge_bar = Green\<rparr>) \<and>
   metrics_panel ex_svc_fraud_only (zip model_names model_keys) =
     ([Metric ''Regresion Logistica'' (1 / 4) (3 / 4), Metric ''K-Vecinos'' (7 / 8) (1 / 8)],
      Some (KeyError (Str ''non_fraud''))) \<and>
   detail_table ex_svc_fraud_only [] = Inl (KeyError (Str ''non_fraud''))"
proof -
  have "plot_predictions ex_svc_fraud_only =
     Inr (\<lparr>bar_x = [''logistic'', ''kneighbors'', ''svc'', ''tree''],
            bar_y = [1 / 4, 7 / 8, 1 / 2, 3 / 8],
            marker_color = [Green, Red, Green, Green]\<rparr>,
          \<lparr>gauge_value = Some (1 / 2), gauge_bar = Green\<rparr>)"
    by (simp add: plot_predictions_def ex_svc_fraud_only_def model_fraud_prob_def getitem2_def
        getitem_def np_mean_def Let_def)
  moreover have "metrics_panel ex_svc_fraud_only (zip model_names model_keys) =
     ([Metric ''Regresion Logistica'' (1 / 4) (3 / 4), Metric ''K-Vecinos'' (7 / 8) (1 / 8)],
      Some (KeyError (Str ''non_fraud'')))"
    by (simp add: model_names_def model_keys_def panel_pair_def getitem2_def getitem_def
        ex_svc_fraud_only_def)
  moreover have "detail_table ex_svc_fraud_only [] = Inl (KeyError (Str ''non_fraud''))"
    by (simp add: ex_svc_fraud_only_def table_pair_def display_model_names)
  ultimately show ?thesis by blast
qed

section \<open>Labels of the detail table\<close>

text \<open>
  Claim C9. Every model of the predictions gets one row of the detail table, in order; the
  row carries the model's title-cased name and its fraud probability and is labelled FRAUDE exactly when that
  probability is above one half, NORMAL exactly when it is at most one half. The label is a
  function of the model's own entry: the mean plays no part (in the example the mean is one
  half, the page reports the transaction safe, and one row is labelled FRAUDE).
\<close>

theorem table_label_threshold:
  assumes "detail_table predictions [] = Inr results_df"
  shows "list_all2
           (\<lambda>(model_name, pred) r.
              modelo r = display_model model_name \<and>
              fraud_prob_of model_name pred = Inr (probabilidad_fraude r) \<and>
              (prediccion r = FRAUDE \<longleftrightarrow> 1 / 2 < probabilidad_fraude r) \<and>
              (prediccion r = NORMAL \<longleftrightarrow> probabilidad_fraude r \<le> 1 / 2))
           predictions results_df"
proof -
  from detail_table_rows [OF assms]
  have "list_all2 (\<lambda>(k, p) r. table_row k p r) predictions results_df"
    by simp
  then show ?thesis
    by (rule list_all2_mono) (auto simp: table_row_fraud, auto simp: table_row_def split: if_splits)
qed

theorem table_label_threshold_witness:
  "detail_table ex_predictions [] = Inr ex_results_df \<and>
   map prediccion ex_results_df = [NORMAL, FRAUDE, NORMAL, NORMAL] \<and>
   list_all2
     (\<lambda>(model_name, pred) r.
        modelo r = display_model model_name \<and>
        fraud_prob_of model_name pred = Inr (probabilidad_fraude r) \<and>
        (prediccion r = FRAUDE \<longleftrightarrow> 1 / 2 < probabilidad_fraude r) \<and>
        (prediccion r = NORMAL \<longleftrightarrow> probabilidad_fraude r \<le> 1 / 2))
     ex_predictions ex_results_df"
proof -
  have t: "detail_table ex_predictions [] = Inr ex_results_df"
    by (simp add: ex_predictions_def ex_results_df_def table_pair_def display_model_names)
  from table_label_threshold [OF t] t show ?thesis
    by (simp add: ex_results_df_def)
qed

section \<open>Canned examples and the manual form\<close>

lemma v_keys:
  "map v_key [1..<29] =
     [''v1'', ''v2'', ''v3'', ''v4'', ''v5'', ''v6'', ''v7'', ''v8'', ''v9'', ''v10'',
      ''v11'', ''v12'', ''v13'', ''v14'', ''v15'', ''v16'', ''v17'', ''v18'', ''v19'', ''v20'',
      ''v21'', ''v22'', ''v23'', ''v24'', ''v25'', ''v26'', ''v27'', ''v28'']"
  by code_simp


lemma dict_set_fresh: "k \<notin> set (map fst d) \<Longrightarrow> dict_set k v d = d @ [(k, v)]"
  by (induction d) auto

lemma dict_update_fresh:
  "distinct (map fst kvs) \<Longrightarrow> set (map fst kvs) \<inter> set (map fst d) = {} \<Longrightarrow>
     dict_update d kvs = d @ kvs"
proof (induction kvs arbitrary: d)
  case Nil
  then show ?case by (simp add: dict_update_def)
next
  case (Cons kv kvs)
  obtain k v where kv: "kv = (k, v)" by (cases kv)
  from Cons.prems kv have fresh: "k \<notin> set (map fst d)" by auto
  from Cons.prems kv have "distinct (map fst kvs)"
    and "set (map fst kvs) \<inter> set (map fst (d @ [(k, v)])) = {}" by auto
  from Cons.IH [OF this] have "dict_update (d @ [(k, v)]) kvs = (d @ [(k, v)]) @ kvs" .
  then show ?case using fresh by (simp add: dict_update_def kv dict_set_fresh)
qed


lemma v_entries:
  "dict_update [(''amount'', a), (''time'', t)] (map (\<lambda>i. (v_key i, val i)) [1..<29]) =
     [(''amount'', a), (''time'', t)] @ map (\<lambda>i. (v_key i, val i)) [1..<29]"
proof (rule dict_update_fresh)
  have "map fst (map (\<lambda>i. (v_key i, val i)) [1..<29]) = map v_key [1..<29]"
    by (simp add: comp_def)
  then have k: "map fst (map (\<lambda>i. (v_key i, val i)) [1..<29]) =
     [''v1'', ''v2'', ''v3'', ''v4'', ''v5'', ''v6'', ''v7'', ''v8'', ''v9'', ''v10'',
      ''v11'', ''v12'', ''v13'', ''v14'', ''v15'', ''v16'', ''v17'', ''v18'', ''v19'', ''v20'',
      ''v21'', ''v22'', ''v23'', ''v24'', ''v25'', ''v26'', ''v27'', ''v28'']"
    by (simp only: v_keys)
  show "distinct (map fst (map (\<lambda>i. (v_key i, val i)) [1..<29]))"
    unfolding k by simp
  show "set (map fst (map (\<lambda>i. (v_key i, val i)) [1..<29])) \<inter>
          set (map fst [(''amount'', a), (''time'', t)]) = {}"
    unfolding k by simp
qed

lemma thirty_keys:
  "map fst ([(''amount'', a), (''time'', t)] @ map (\<lambda>i. (v_key i, val i)) [1..<29]) = required_keys"
proof -
  have "map fst (map (\<lambda>i. (v_key i, val i)) [1..<29]) = map v_key [1..<29]"
    by (simp add: comp_def)
  then show ?thesis by (simp only: map_append v_keys required_keys_def) simp
qed

lemma required_keys_distinct: "distinct required_keys \<and> length required_keys = 30"
  by (simp add: required_keys_def)

lemma amount_time_base:
  "dict_set ''time'' t (dict_set ''amount'' a []) = [(''amount'', a), (''time'', t)]"
  by simp

lemma create_sample_transaction_eq:
  "create_sample_transaction nrm =
     PyDict ([(''amount'', PyFloat (10050 / 100)), (''time'', PyInt 3600)] @
             map (\<lambda>i. (v_key i, PyFloat (nrm i 0 1))) [1..<29])"
  by (simp only: create_sample_transaction_def amount_time_base v_entries)

lemma create_fraud_sample_eq:
  "create_fraud_sample nrm =
     PyDict ([(''amount'', PyFloat 5000), (''time'', PyInt 25200)] @
             map (\<lambda>i. (v_key i,
                   PyFloat (if i \<in> set [1, 3, 7, 10, 14] then nrm i 0 2 else nrm i 0 (1 / 2))))
                 [1..<29])"
  by (simp only: create_fraud_sample_def amount_time_base v_entries)


lemma thirty_fields:
  fixes val :: "nat \<Rightarrow> real" and a :: real and t :: int
  defines "d \<equiv> [(''amount'', PyFloat a), (''time'', PyInt t)] @
                 map (\<lambda>i. (v_key i, PyFloat (val i))) [1..<29]"
  shows "map fst d = required_keys \<and> distinct (map fst d) \<and> length d = 30 \<and>
         map_of d ''amount'' = Some (PyFloat a) \<and> map_of d ''time'' = Some (PyInt t) \<and>
         list_all is_float (map snd (drop 2 d))"
proof -
  have k: "map fst d = required_keys" unfolding d_def by (rule thirty_keys)
  have "length d = length (map fst d)" by (simp only: length_map)
  then have "length d = 30" by (simp only: k required_keys_distinct)
  moreover have "distinct (map fst d)" by (simp only: k required_keys_distinct)
  moreover have "map_of d ''amount'' = Some (PyFloat a)" "map_of d ''time'' = Some (PyInt t)"
    by (simp_all add: d_def)
  moreover have "list_all is_float (map snd (drop 2 d))"
    by (simp add: d_def list_all_iff del: upt.simps)
  ultimately show ?thesis using k by blast
qed

text \<open>
  Claim C10. Whatever numbers are drawn, \<^verbatim>\<open>create_sample_transaction\<close> and
  \<^verbatim>\<open>create_fraud_sample\<close> return a dictionary whose keys are exactly the thirty keys
  amount, time, v1 to v28 (each once), with a positive amount, an integer time within
  0 and 86400 and a float under every v key; the amount and time are ones the manual form
  admits as well.
\<close>

theorem canned_examples_well_formed:
  "(\<exists>d a t. create_sample_transaction (normal w) = PyDict d \<and>
      (map fst d = required_keys \<and> distinct (map fst d) \<and> length d = 30 \<and>
       map_of d ''amount'' = Some (PyFloat a) \<and> map_of d ''time'' = Some (PyInt t) \<and>
       list_all is_float (map snd (drop 2 d))) \<and>
      0 < a \<and> 0 \<le> t \<and> t \<le> 86400 \<and> manual_form a t (\<lambda>i. 0) \<noteq> None) \<and>
   (\<exists>d a t. create_fraud_sample (normal w) = PyDict d \<and>
      (map fst d = required_keys \<and> distinct (map fst d) \<and> length d = 30 \<and>
       map_of d ''amount'' = Some (PyFloat a) \<and> map_of d ''time'' = Some (PyInt t) \<and>
       list_all is_float (map snd (drop 2 d))) \<and>
      0 < a \<and> 0 \<le> t \<and> t \<le> 86400 \<and> manual_form a t (\<lambda>i. 0) \<noteq> None)"
proof (rule conjI)
  define d where "d = [(''amount'', PyFloat (10050 / 100)), (''time'', PyInt 3600)] @
                        map (\<lambda>i. (v_key i, PyFloat (normal w i 0 1))) [1..<29]"
  have e: "create_sample_transaction (normal w) = PyDict d"
    unfolding d_def by (rule create_sample_transaction_eq)
  have f: "map fst d = required_keys \<and> distinct (map fst d) \<and> length d = 30 \<and>
       map_of d ''amount'' = Some (PyFloat (10050 / 100)) \<and>
       map_of d ''time'' = Some (PyInt 3600) \<and>
       list_all is_float (map snd (drop 2 d))"
    unfolding d_def by (rule thirty_fields)
  have b: "(0::real) < 10050 / 100" "(0::int) \<le> 3600" "(3600::int) \<le> 86400" by simp_all
  have m: "manual_form (10050 / 100) 3600 (\<lambda>i. 0) \<noteq> None"
    by (simp add: manual_form_def number_input_def)
  from e f b m show "\<exists>d a t. create_sample_transaction (normal w) = PyDict d \<and>
      (map fst d = required_keys \<and> distinct (map fst d) \<and> length d = 30 \<and>
       map_of d ''amount'' = Some (PyFloat a) \<and> map_of d ''time'' = Some (PyInt t) \<and>
       list_all is_float (map snd (drop 2 d))) \<and>
      0 < a \<and> 0 \<le> t \<and> t \<le> 86400 \<and> manual_form a t (\<lambda>i. 0) \<noteq> None"
    by blast
next
  define d where "d = [(''amount'', PyFloat 5000), (''time'', PyInt 25200)] @
      map (\<lambda>i. (v_key i,
             PyFloat (if i \<in> set [1, 3, 7, 10, 14] then normal w i 0 2 else normal w i 0 (1 / 2))))
          [1..<29]"
  have e: "create_fraud_sample (normal w) = PyDict d"
    unfolding d_def by (rule create_fraud_sample_eq)
  have f: "map fst d = required_keys \<and> distinct (map fst d) \<and> length d = 30 \<and>
       map_of d ''amount'' = Some (PyFloat 5000) \<and>
       map_of d ''time'' = Some (PyInt 25200) \<and>
       list_all is_float (map snd (drop 2 d))"
    unfolding d_def by (rule thirty_fields)
  have b: "(0::real) < 5000" "(0::int) \<le> 25200" "(25200::int) \<le> 86400" by simp_all
  have m: "manual_form 5000 25200 (\<lambda>i. 0) \<noteq> None"
    by (simp add: manual_form_def number_input_def)
  from e f b m show "\<exists>d a t. create_fraud_sample (normal w) = PyDict d \<and>
      (map fst d = required_keys \<and> distinct (map fst d) \<and> length d = 30 \<and>
       map_of d ''amount'' = Some (PyFloat a) \<and> map_of d ''time'' = Some (PyInt t) \<and>
       list_all is_float (map snd (drop 2 d))) \<and>
      0 < a \<and> 0 \<le> t \<and> t \<le> 86400 \<and> manual_form a t (\<lambda>i. 0) \<noteq> None"
    by blast
qed

theorem canned_examples_well_formed_witness:
  "\<exists>d. create_sample_transaction (normal ex_world) = PyDict d \<and> map fst d = required_keys \<and>
       map_of d ''amount'' = Some (PyFloat (10050 / 100)) \<and> map_of d ''time'' = Some (PyInt 3600)"
proof -
  from canned_examples_well_formed [of ex_world]
  obtain d a t where "create_sample_transaction (normal ex_world) = PyDict d"
    and "map fst d = required_keys"
    and "map_of d ''amount'' = Some (PyFloat a)" and "map_of d ''time'' = Some (PyInt t)"
    by blast
  moreover from this(1) have "map_of d ''amount'' = Some (PyFloat (10050 / 100))"
    and "map_of d ''time'' = Some (PyInt 3600)"
    by (auto simp: create_sample_transaction_eq)
  ultimately show ?thesis by blast
qed

section \<open>What the page checks of a transaction\<close>




section \<open>Events of the two handlers\<close>

lemma show_results_events:
  "ev \<in> set (fst (show_results predictions)) \<Longrightarrow>
     is_metric ev \<or> is_fraud_alert ev \<or> is_safe_alert ev"
  using metrics_panel_only_metrics [of predictions "zip model_names model_keys"]
  by (auto simp: show_results_def list_all_iff split: sum.splits prod.splits if_splits)

lemma analyze_button_events:
  assumes "ev \<in> set (analyze_button pt tx models)"
  shows "ev = Scoring_call tx \<or> is_metric ev \<or> is_fraud_alert ev \<or> is_safe_alert ev \<or>
         (\<exists>e. ev = Process_error e)"
proof (cases "pt tx models")
  case (Inl e)
  with assms show ?thesis by (auto simp: analyze_button_def)
next
  case (Inr predictions)
  obtain shown err where r: "show_results predictions = (shown, err)"
    by (cases "show_results predictions")
  with assms Inr have "ev = Scoring_call tx \<or> ev \<in> set shown \<or> (\<exists>e. ev = Process_error e)"
    by (cases err) (auto simp: analyze_button_def)
  then show ?thesis using show_results_events [of ev predictions] r by auto
qed

lemma visualize_button_events:
  assumes "ev \<in> set (visualize_button pt tx models)"
  shows "ev = Scoring_call tx \<or> (\<exists>e. ev = Visual_error e) \<or> (\<exists>f. ev = Plotly_bar f) \<or>
         (\<exists>g. ev = Plotly_gauge g) \<or> (\<exists>r. ev = Dataframe r)"
  using assms by (auto simp: visualize_button_def split: sum.splits prod.splits)

lemma handlers_scoring_call:
  "Scoring_call tx' \<in> set (analyze_button pt tx models) \<Longrightarrow> tx' = tx"
  "Scoring_call tx' \<in> set (visualize_button pt tx models) \<Longrightarrow> tx' = tx"
  using analyze_button_events [of "Scoring_call tx'" pt tx models]
    visualize_button_events [of "Scoring_call tx'" pt tx models]
  by auto

lemma handlers_no_uncaught:
  "\<not> list_ex is_uncaught (analyze_button pt tx models)"
  "\<not> list_ex is_uncaught (visualize_button pt tx models)"
proof -
  have "\<not> is_uncaught ev" if "ev \<in> set (analyze_button pt tx models)" for ev
    using analyze_button_events [OF that] by (cases ev) auto
  then show "\<not> list_ex is_uncaught (analyze_button pt tx models)"
    by (auto simp: list_ex_iff)
  have "\<not> is_uncaught ev" if "ev \<in> set (visualize_button pt tx models)" for ev
    using visualize_button_events [OF that] by (cases ev) auto
  then show "\<not> list_ex is_uncaught (visualize_button pt tx models)"
    by (auto simp: list_ex_iff)
qed

section \<open>Malformed JSON\<close>

text \<open>
  The case the handler catches. When the text area holds a text that \<^verbatim>\<open>json.loads\<close>
  rejects with JSONDecodeError, the page (once the models are loaded) shows the message for
  invalid JSON, no exception leaves \<^verbatim>\<open>main\<close>, the text is dropped, and every call of
  \<^verbatim>\<open>process_transaction\<close> in that run is made on the canned sample transaction, which
  does not depend on the text. (An empty text area is no input: the sample is used without a
  message.)
\<close>

lemma json_decode_error_caught:
  assumes ne: "json_input \<noteq> []"
    and bad: "json_loads w json_input = Inl JSONDecodeError"
    and m: "data_input_method inp = JSON json_input"
  shows "transaction_section w (data_input_method inp) =
           Inr ([Json_invalid], create_sample_transaction (normal w)) \<and>
         \<not> list_ex is_uncaught (main w inp) \<and>
         (\<forall>tx. Scoring_call tx \<in> set (main w inp) \<longrightarrow> tx = create_sample_transaction (normal w)) \<and>
         (\<forall>models. load_models w = Inr (Some models) \<longrightarrow> Json_invalid \<in> set (main w inp))"
proof -
  have ts: "transaction_section w (data_input_method inp) =
           Inr ([Json_invalid], create_sample_transaction (normal w))"
    using ne bad by (simp add: m json_section_def)
  obtain shown models where l: "load_ml_models (load_models w) = (shown, models)"
    by (cases "load_ml_models (load_models w)")
  have sh: "shown = [] \<or> (\<exists>e. shown = [Load_error e])"
    using l by (auto simp: load_ml_models_def split: sum.splits)
  show ?thesis
  proof (cases models)
    case None
    then have "main w inp = shown @ [Models_unavailable]" by (simp add: main_def l)
    moreover have "load_models w \<noteq> Inr (Some ms)" for ms
      using l None by (auto simp: load_ml_models_def)
    ultimately show ?thesis using ts sh by auto
  next
    case (Some ms)
    let ?tx = "create_sample_transaction (normal w)"
    have mn: "main w inp = shown @ [Models_loaded (length ms), Json_invalid] @
        (if analyze_clicked inp then analyze_button (process_transaction w) ?tx ms else []) @
        (if visualize_clicked inp then visualize_button (process_transaction w) ?tx ms else [])"
      by (simp add: main_def l Some ts)
    have "\<not> list_ex is_uncaught (main w inp)"
      using sh handlers_no_uncaught [of "process_transaction w" ?tx ms]
      by (auto simp: mn)
    moreover have "tx = ?tx" if "Scoring_call tx \<in> set (main w inp)" for tx
      using that sh handlers_scoring_call [of tx "process_transaction w" ?tx ms]
      by (auto simp: mn split: if_splits)
    moreover have "Json_invalid \<in> set (main w inp)" by (simp add: mn)
    ultimately show ?thesis using ts by blast
  qed
qed

text \<open>
  Claim C7 asks this of every malformed text. The handler catches JSONDecodeError only, and
  \<^verbatim>\<open>json.loads\<close> leaves some malformed texts with another exception: on 100000 opening
  brackets it raises RecursionError. On that text the run ends in the exception, right after
  the models are loaded: no message for invalid JSON is shown and the page does not go on.
\<close>

theorem deep_nesting_uncaught:
  "main ex_world_deep ex_inputs_deep = [Models_loaded 4, Uncaught RecursionError]"
proof -
  have ne: "deep_nesting \<noteq> []" by (simp add: deep_nesting_def)
  have "transaction_section ex_world_deep (JSON deep_nesting) = Inl RecursionError"
    using ne by (simp add: json_section_def ex_world_deep_def)
  moreover have "load_models ex_world_deep =
     Inr (Some [(''logistic'', ()), (''kneighbors'', ()), (''svc'', ()), (''tree'', ())])"
    by (simp add: ex_world_deep_def ex_world_def)
  ultimately show ?thesis
    by (simp add: main_def load_ml_models_def ex_inputs_deep_def)
qed

section \<open>Model loading\<close>

text \<open>
  Claim C8. When \<^verbatim>\<open>load_models\<close> raises, the page shows the loader's error and the
  message that the models could not be loaded, and stops: nothing else is shown and
  \<^verbatim>\<open>process_transaction\<close> is not called. The same holds when it returns None. A run
  that calls \<^verbatim>\<open>process_transaction\<close> is a run in which the loader returned a registry.
\<close>

theorem load_failure_is_fatal:
  "(\<forall>e. load_models w = Inl e \<longrightarrow> main w inp = [Load_error e, Models_unavailable]) \<and>
   (load_models w = Inr None \<longrightarrow> main w inp = [Models_unavailable]) \<and>
   (list_ex is_scoring_call (main w inp) \<longrightarrow> (\<exists>models. load_models w = Inr (Some models)))"
proof (intro conjI allI impI)
  fix e assume "load_models w = Inl e"
  then show "main w inp = [Load_error e, Models_unavailable]"
    by (simp add: main_def load_ml_models_def)
next
  assume "load_models w = Inr None"
  then show "main w inp = [Models_unavailable]"
    by (simp add: main_def load_ml_models_def)
next
  assume s: "list_ex is_scoring_call (main w inp)"
  show "\<exists>models. load_models w = Inr (Some models)"
  proof (cases "load_models w")
    case (Inl e)
    with s show ?thesis by (simp add: main_def load_ml_models_def)
  next
    case (Inr r)
    with s show ?thesis by (cases r) (simp_all add: main_def load_ml_models_def)
  qed
qed

theorem load_failure_is_fatal_witness:
  "main (ex_world\<lparr>load_models := Inl (OtherError ''model/svc.pkl'')\<rparr>) ex_inputs =
     [Load_error (OtherError ''model/svc.pkl''), Models_unavailable] \<and>
   \<not> list_ex is_scoring_call
       (main (ex_world\<lparr>load_models := Inl (OtherError ''model/svc.pkl'')\<rparr>) ex_inputs)"
  using load_failure_is_fatal
    [of "ex_world\<lparr>load_models := Inl (OtherError ''model/svc.pkl'')\<rparr>" ex_inputs]
  by simp

section \<open>Failures while scoring\<close>




text \<open>
  The page itself checks no shape beyond the two reads: were a positional output of three
  elements to reach it, elements 0 and 1 would be read and the result shown.
\<close>

lemma three_element_output_accepted:
  "analyze_button (\<lambda>tx models. Inr ex_three_elements) PyNone () =
     [Scoring_call PyNone, Safe_alert (Some (1 / 2)) (7 / 8),
      Metric ''Regresion Logistica'' (1 / 4) (1 / 8),
      Metric ''K-Vecinos'' (7 / 8) (1 / 8),
      Metric ''SVM'' (1 / 2) (1 / 2),
      Metric ''Arbol de Decision'' (3 / 8) (5 / 8)]"
proof -
  have a: "aggregate_metrics ex_three_elements = Inr (Some (1 / 2), 7 / 8)"
    by (simp add: aggregate_metrics_def ex_three_elements_def fraud_prob_of_def np_mean_def
        np_max_def)
  have p: "metrics_panel ex_three_elements (zip model_names model_keys) =
     ([Metric ''Regresion Logistica'' (1 / 4) (1 / 8),
       Metric ''K-Vecinos'' (7 / 8) (1 / 8),
       Metric ''SVM'' (1 / 2) (1 / 2),
       Metric ''Arbol de Decision'' (3 / 8) (5 / 8)], None)"
    by (simp add: model_names_def model_keys_def panel_pair_def getitem2_def getitem_def
        ex_three_elements_def)
  show ?thesis by (simp add: analyze_button_def show_results_def a p)
qed

end
